theory Spec2Isabelle
  imports Main "HOL-Library.AList" "HOL-Library.Multiset"
begin

section \<open>Data model\<close>

text \<open>
  The messaging micro-service keeps three tables (\<^verbatim>\<open>app/models.py\<close>) and one
  in-memory registry of open WebSocket connections (\<^verbatim>\<open>app/websockets/manager.py\<close>).

  \<^item> A table is the list of its rows, in insertion order. A new row gets an
    auto-increment primary key.
  \<^item> \<^verbatim>\<open>active_connections: Dict[int, List[WebSocket]]\<close> is an association list:
    Python dictionaries keep insertion order, and the presence broadcast iterates
    over the items in that order. Assigning to an existing key keeps its position,
    assigning to a new key appends, \<^verbatim>\<open>del\<close> removes the entry: these are
    \<open>AList.update\<close> and \<open>AList.delete\<close>; a lookup is \<open>map_of\<close>.
  \<^item> A WebSocket is an opaque handle of type \<open>'h\<close>, compared by identity.
  \<^item> The text frames are JSON documents; a frame is represented by the dictionary
    that \<^verbatim>\<open>json.dumps\<close> serialises.
  \<^item> What leaves the process is recorded in a trace: every
    \<^verbatim>\<open>await connection.send_text(...)\<close> with its outcome (\<open>True\<close>: it returned,
    \<open>False\<close>: it raised), every \<^verbatim>\<open>asyncio.create_task(...)\<close>, and the commit of a
    status update, the database write whose place among the sends matters.
    Whether a send succeeds is decided by the network, a function of the trace
    so far, the handle and the frame.
  \<^item> Each operation runs from start to end with no other coroutine in between. A
    task that the operation itself schedules with \<^verbatim>\<open>asyncio.create_task\<close> is started by
    the event loop when the operation next awaits the database, and has run to its end
    when the operation goes on; tasks scheduled before the operation belong to the
    other coroutines.
\<close>

datatype MessageStatus = SENT | DELIVERED | READ

record User =
  usr_id :: int
  usr_email :: string
  usr_password :: string
  usr_username :: string
  usr_full_name :: "string option"
  usr_bio :: "string option"
  usr_avatar_url :: "string option"

record Conversation =
  conv_id :: int
  conv_participant_1_id :: int
  conv_participant_2_id :: int
  conv_created_at :: nat

record Message =
  msg_id :: int
  msg_conversation_id :: int
  msg_sender_id :: int
  msg_content :: string
  msg_timestamp :: nat
  msg_status :: MessageStatus

record MessageResponse =
  resp_id :: int
  resp_conversation_id :: int
  resp_sender_id :: int
  resp_content :: string
  resp_timestamp :: nat
  resp_status :: MessageStatus

record MessageCreate =
  receiver_id :: int
  content :: string

record AuthenticatedUser =
  auth_user_id :: int
  auth_username :: string
  auth_email :: "string option"

datatype payload =
    User_status int string
  | Online_users "int list"
  | New_message MessageResponse

datatype 'h event =
    Send_text 'h payload bool
  | Create_task int string
  | Commit_status int MessageStatus

text \<open>The frames a trace attempts to send, the handles whose send failed, the tasks
  it schedules and the status updates it commits.\<close>

fun attempts :: "'h event list \<Rightarrow> ('h \<times> payload) list" where
  "attempts [] = []"
| "attempts (Send_text connection frame ok # evs) = (connection, frame) # attempts evs"
| "attempts (Create_task user_id status # evs) = attempts evs"
| "attempts (Commit_status message_id status # evs) = attempts evs"

fun failures :: "'h event list \<Rightarrow> 'h list" where
  "failures [] = []"
| "failures (Send_text connection frame ok # evs) =
     (if ok then failures evs else connection # failures evs)"
| "failures (Create_task user_id status # evs) = failures evs"
| "failures (Commit_status message_id status # evs) = failures evs"

fun tasks :: "'h event list \<Rightarrow> (int \<times> string) list" where
  "tasks [] = []"
| "tasks (Send_text connection frame ok # evs) = tasks evs"
| "tasks (Create_task user_id status # evs) = (user_id, status) # tasks evs"
| "tasks (Commit_status message_id status # evs) = tasks evs"

fun commits :: "'h event list \<Rightarrow> (int \<times> MessageStatus) list" where
  "commits [] = []"
| "commits (Send_text connection frame ok # evs) = commits evs"
| "commits (Create_task user_id status # evs) = commits evs"
| "commits (Commit_status message_id status # evs) = (message_id, status) # commits evs"

type_synonym 'h network = "'h event list \<Rightarrow> 'h \<Rightarrow> payload \<Rightarrow> bool"

record 'h system =
  users :: "User list"
  conversations :: "Conversation list"
  messages :: "Message list"
  active_connections :: "(int \<times> 'h list) list"
  trace :: "'h event list"

section \<open>The connection manager\<close>

text \<open>\<^verbatim>\<open>try: await connection.send_text(message_json) except Exception: ...\<close>:
  the attempt is recorded with its outcome, which is also returned.\<close>

definition send_text :: "'h network \<Rightarrow> 'h \<Rightarrow> payload \<Rightarrow> 'h system \<Rightarrow> bool \<times> 'h system" where
  "send_text net connection message_json s =
     (let ok = net (trace s) connection message_json
      in (ok, s\<lparr>trace := trace s @ [Send_text connection message_json ok]\<rparr>))"

text \<open>\<^verbatim>\<open>ConnectionManager.is_user_online\<close>.\<close>

definition is_user_online :: "'h system \<Rightarrow> int \<Rightarrow> bool" where
  "is_user_online s user_id =
     (case map_of (active_connections s) user_id of
        None \<Rightarrow> False
      | Some connections \<Rightarrow> length connections > 0)"

text \<open>\<^verbatim>\<open>ConnectionManager.broadcast_user_status\<close>: the inner loop over one user's
  connections, where a failed send is logged and nothing else, and the outer loop over
  the items of the dictionary.\<close>

fun broadcast_connections :: "'h network \<Rightarrow> payload \<Rightarrow> 'h list \<Rightarrow> 'h system \<Rightarrow> 'h system" where
  "broadcast_connections net message_json [] s = s"
| "broadcast_connections net message_json (connection # connections) s =
     broadcast_connections net message_json connections
       (snd (send_text net connection message_json s))"

fun broadcast_items :: "'h network \<Rightarrow> payload \<Rightarrow> (int \<times> 'h list) list \<Rightarrow> 'h system \<Rightarrow> 'h system" where
  "broadcast_items net message_json [] s = s"
| "broadcast_items net message_json ((connected_user_id, connections) # items) s =
     broadcast_items net message_json items
       (broadcast_connections net message_json connections s)"

definition broadcast_user_status :: "'h network \<Rightarrow> int \<Rightarrow> string \<Rightarrow> 'h system \<Rightarrow> 'h system" where
  "broadcast_user_status net user_id status s =
     broadcast_items net (User_status user_id status) (active_connections s) s"

text \<open>The event loop starting the scheduled tasks, oldest first: each is a call of
  \<^verbatim>\<open>broadcast_user_status\<close>, on the registry as it is when the task starts.\<close>

fun run_tasks :: "'h network \<Rightarrow> (int \<times> string) list \<Rightarrow> 'h system \<Rightarrow> 'h system" where
  "run_tasks net [] s = s"
| "run_tasks net ((user_id, status) # scheduled) s =
     run_tasks net scheduled (broadcast_user_status net user_id status s)"

text \<open>\<^verbatim>\<open>ConnectionManager.connect\<close>.\<close>

definition connect :: "'h network \<Rightarrow> int \<Rightarrow> 'h \<Rightarrow> 'h system \<Rightarrow> 'h system" where
  "connect net user_id websocket s =
     (let was_offline =
            (case map_of (active_connections s) user_id of
               None \<Rightarrow> True
             | Some connections \<Rightarrow> length connections = 0);
          ac1 = (case map_of (active_connections s) user_id of
                   None \<Rightarrow> AList.update user_id [] (active_connections s)
                 | Some connections \<Rightarrow> active_connections s);
          ac2 = (case map_of ac1 user_id of
                   None \<Rightarrow> ac1
                 | Some connections \<Rightarrow> AList.update user_id (connections @ [websocket]) ac1);
          s1 = s\<lparr>active_connections := ac2\<rparr>
      in if was_offline then broadcast_user_status net user_id ''online'' s1 else s1)"

text \<open>\<^verbatim>\<open>ConnectionManager.disconnect\<close>: \<^verbatim>\<open>list.remove\<close> removes the first occurrence;
  the offline broadcast is only scheduled (\<^verbatim>\<open>asyncio.create_task\<close>), it does not run
  inside the call.\<close>

definition disconnect :: "int \<Rightarrow> 'h \<Rightarrow> 'h system \<Rightarrow> 'h system" where
  "disconnect user_id websocket s =
     (case map_of (active_connections s) user_id of
        None \<Rightarrow> s
      | Some connections \<Rightarrow>
          (let connections' =
                 (if websocket \<in> set connections then remove1 websocket connections
                  else connections);
               ac1 = AList.update user_id connections' (active_connections s)
           in if connections' = []
              then s\<lparr>active_connections := AList.delete user_id ac1,
                     trace := trace s @ [Create_task user_id ''offline'']\<rparr>
              else s\<lparr>active_connections := ac1\<rparr>))"

text \<open>\<^verbatim>\<open>ConnectionManager.send_online_users\<close>.\<close>

definition send_online_users :: "'h network \<Rightarrow> 'h \<Rightarrow> 'h system \<Rightarrow> 'h system" where
  "send_online_users net websocket s =
     snd (send_text net websocket (Online_users (map fst (active_connections s))) s)"

text \<open>\<^verbatim>\<open>ConnectionManager.send_personal_message\<close>: the first loop sends to each of the
  user's connections and collects those whose send raised; the second loop disconnects
  the collected ones.\<close>

fun send_collect ::
  "'h network \<Rightarrow> payload \<Rightarrow> 'h list \<Rightarrow> 'h list \<Rightarrow> 'h system \<Rightarrow> 'h list \<times> 'h system" where
  "send_collect net message_json [] disconnected s = (disconnected, s)"
| "send_collect net message_json (connection # connections) disconnected s =
     (case send_text net connection message_json s of
        (True, s') \<Rightarrow> send_collect net message_json connections disconnected s'
      | (False, s') \<Rightarrow>
          send_collect net message_json connections (disconnected @ [connection]) s')"

fun disconnect_each :: "int \<Rightarrow> 'h list \<Rightarrow> 'h system \<Rightarrow> 'h system" where
  "disconnect_each user_id [] s = s"
| "disconnect_each user_id (connection # disconnected) s =
     disconnect_each user_id disconnected (disconnect user_id connection s)"

definition send_personal_message :: "'h network \<Rightarrow> payload \<Rightarrow> int \<Rightarrow> 'h system \<Rightarrow> 'h system" where
  "send_personal_message net message user_id s =
     (case map_of (active_connections s) user_id of
        None \<Rightarrow> s
      | Some connections \<Rightarrow>
          (case send_collect net message connections [] s of
             (disconnected, s') \<Rightarrow> disconnect_each user_id disconnected s'))"

section \<open>The message service\<close>

text \<open>
  The database session, as far as \<^verbatim>\<open>app/services/message_service.py\<close> uses it.
  \<^verbatim>\<open>result.scalar_one_or_none()\<close> returns the only row, \<^verbatim>\<open>None\<close> when there is no row,
  and raises when there are several. An insert takes the next auto-increment key: one
  more than the largest key of the table, and 1 in an empty table (no row is ever
  deleted). The constraints declared in \<^verbatim>\<open>app/models.py\<close> are checked at \<^verbatim>\<open>commit\<close>:
  the columns \<^verbatim>\<open>email\<close> and \<^verbatim>\<open>password\<close> are not nullable, \<^verbatim>\<open>email\<close> and \<^verbatim>\<open>username\<close>
  are unique, and the participants of a conversation, the sender of a message and its
  conversation are foreign keys. A statement that raises changes no table; what was
  committed before it stays. \<^verbatim>\<open>datetime.utcnow()\<close> is a parameter of the function that
  calls it.
\<close>

datatype exn = MultipleResultsFound | IntegrityError

datatype http_error = HTTPException nat string

fun scalar_one_or_none :: "'a list \<Rightarrow> exn + 'a option" where
  "scalar_one_or_none [] = Inr None"
| "scalar_one_or_none [row] = Inr (Some row)"
| "scalar_one_or_none (row # row' # rows) = Inl MultipleResultsFound"

definition next_id :: "int list \<Rightarrow> int" where
  "next_id ids = fold max ids 0 + 1"

definition truthy :: "string option \<Rightarrow> bool" where
  "truthy v = (case v of None \<Rightarrow> False | Some str \<Rightarrow> str \<noteq> [])"

text \<open>\<^verbatim>\<open>get_or_create_conversation\<close>.\<close>

definition get_or_create_conversation ::
  "int \<Rightarrow> int \<Rightarrow> nat \<Rightarrow> 'h system \<Rightarrow> (exn + Conversation) \<times> 'h system" where
  "get_or_create_conversation user1_id user2_id utcnow s =
     (let participant_1 = min user1_id user2_id;
          participant_2 = max user1_id user2_id
      in case scalar_one_or_none
                (filter (\<lambda>c. conv_participant_1_id c = participant_1 \<and>
                                conv_participant_2_id c = participant_2)
                   (conversations s)) of
           Inl e \<Rightarrow> (Inl e, s)
         | Inr (Some conversation) \<Rightarrow> (Inr conversation, s)
         | Inr None \<Rightarrow>
             (let conversation =
                    \<lparr>conv_id = next_id (map conv_id (conversations s)),
                     conv_participant_1_id = participant_1,
                     conv_participant_2_id = participant_2,
                     conv_created_at = utcnow\<rparr>
              in if participant_1 \<in> set (map usr_id (users s)) \<and>
                    participant_2 \<in> set (map usr_id (users s))
                 then (Inr conversation, s\<lparr>conversations := conversations s @ [conversation]\<rparr>)
                 else (Inl IntegrityError, s)))"

text \<open>\<^verbatim>\<open>create_message\<close>: the first time stamp is the one read when a conversation is
  created, the second the one of the message.\<close>

definition create_message ::
  "int \<Rightarrow> MessageCreate \<Rightarrow> nat \<Rightarrow> nat \<Rightarrow> 'h system \<Rightarrow> (exn + Message) \<times> 'h system" where
  "create_message sender_id message_data utcnow_conversation utcnow_message s =
     (case get_or_create_conversation sender_id (receiver_id message_data)
             utcnow_conversation s of
        (Inl e, s1) \<Rightarrow> (Inl e, s1)
      | (Inr conversation, s1) \<Rightarrow>
          (let message =
                 \<lparr>msg_id = next_id (map msg_id (messages s1)),
                  msg_conversation_id = conv_id conversation,
                  msg_sender_id = sender_id,
                  msg_content = content message_data,
                  msg_timestamp = utcnow_message,
                  msg_status = SENT\<rparr>
           in if sender_id \<in> set (map usr_id (users s1)) \<and>
                 conv_id conversation \<in> set (map conv_id (conversations s1))
              then (Inr message, s1\<lparr>messages := messages s1 @ [message]\<rparr>)
              else (Inl IntegrityError, s1)))"

text \<open>\<^verbatim>\<open>update_message_status\<close>.\<close>

definition update_message_status ::
  "int \<Rightarrow> MessageStatus \<Rightarrow> 'h system \<Rightarrow> (exn + Message option) \<times> 'h system" where
  "update_message_status message_id status s =
     (case scalar_one_or_none (filter (\<lambda>m. msg_id m = message_id) (messages s)) of
        Inl e \<Rightarrow> (Inl e, s)
      | Inr None \<Rightarrow> (Inr None, s)
      | Inr (Some message) \<Rightarrow>
          (let message' = message\<lparr>msg_status := status\<rparr>
           in (Inr (Some message'),
               s\<lparr>messages :=
                    map (\<lambda>m. if msg_id m = message_id then message' else m) (messages s),
                 trace := trace s @ [Commit_status message_id status]\<rparr>)))"

text \<open>\<^verbatim>\<open>get_user_by_id\<close> and \<^verbatim>\<open>get_user_by_username\<close>.\<close>

definition get_user_by_id :: "int \<Rightarrow> 'h system \<Rightarrow> exn + User option" where
  "get_user_by_id user_id s =
     scalar_one_or_none (filter (\<lambda>u. usr_id u = user_id) (users s))"

definition get_user_by_username :: "string \<Rightarrow> 'h system \<Rightarrow> exn + User option" where
  "get_user_by_username username s =
     scalar_one_or_none (filter (\<lambda>u. usr_username u = username) (users s))"

text \<open>\<^verbatim>\<open>create_user\<close>.\<close>

definition create_user ::
  "string \<Rightarrow> string option \<Rightarrow> string option \<Rightarrow> string option \<Rightarrow> string option \<Rightarrow>
   string option \<Rightarrow> 'h system \<Rightarrow> (exn + User) \<times> 'h system" where
  "create_user username email password full_name bio avatar_url s =
     (case (email, password) of
        (Some email', Some password') \<Rightarrow>
          (let user =
                 \<lparr>usr_id = next_id (map usr_id (users s)),
                  usr_email = email',
                  usr_password = password',
                  usr_username = username,
                  usr_full_name = full_name,
                  usr_bio = bio,
                  usr_avatar_url = avatar_url\<rparr>
           in if email' \<in> set (map usr_email (users s)) \<or>
                 username \<in> set (map usr_username (users s))
              then (Inl IntegrityError, s)
              else (Inr user, s\<lparr>users := users s @ [user]\<rparr>))
      | _ \<Rightarrow> (Inl IntegrityError, s))"

text \<open>\<^verbatim>\<open>get_or_create_user\<close>.\<close>

definition get_or_create_user ::
  "string \<Rightarrow> string option \<Rightarrow> string option \<Rightarrow> string option \<Rightarrow> string option \<Rightarrow>
   string option \<Rightarrow> 'h system \<Rightarrow> (exn + User) \<times> 'h system" where
  "get_or_create_user username email password full_name bio avatar_url s =
     (case get_user_by_username username s of
        Inl e \<Rightarrow> (Inl e, s)
      | Inr (Some user) \<Rightarrow>
          (let user1 = (if truthy email then user\<lparr>usr_email := the email\<rparr> else user);
               user2 = (if truthy password then user1\<lparr>usr_password := the password\<rparr>
                        else user1);
               user3 = (if truthy full_name then user2\<lparr>usr_full_name := full_name\<rparr>
                        else user2);
               user4 = (if bio \<noteq> None then user3\<lparr>usr_bio := bio\<rparr> else user3);
               user5 = (if truthy avatar_url then user4\<lparr>usr_avatar_url := avatar_url\<rparr>
                        else user4)
           in if usr_email user5 \<noteq> usr_email user \<and>
                 usr_email user5 \<in>
                   set (map usr_email (filter (\<lambda>u. usr_id u \<noteq> usr_id user) (users s)))
              then (Inl IntegrityError, s)
              else (Inr user5,
                    s\<lparr>users := map (\<lambda>u. if usr_id u = usr_id user then user5 else u)
                                  (users s)\<rparr>))
      | Inr None \<Rightarrow> create_user username email password full_name bio avatar_url s)"

section \<open>The message route\<close>

text \<open>\<^verbatim>\<open>MessageResponse.model_validate(message)\<close> copies the columns of the row.\<close>

definition model_validate :: "Message \<Rightarrow> MessageResponse" where
  "model_validate message =
     \<lparr>resp_id = msg_id message,
      resp_conversation_id = msg_conversation_id message,
      resp_sender_id = msg_sender_id message,
      resp_content = msg_content message,
      resp_timestamp = msg_timestamp message,
      resp_status = msg_status message\<rparr>"

definition failed_to_send :: http_error where
  "failed_to_send = HTTPException 500 ''Failed to send message''"

text \<open>\<^verbatim>\<open>send_message\<close> (\<^verbatim>\<open>POST /messages/\<close>): a \<^verbatim>\<open>HTTPException\<close> is raised again,
  any other exception becomes the status 500. The tasks that \<^verbatim>\<open>disconnect\<close> has
  scheduled inside \<^verbatim>\<open>send_personal_message\<close> (those the trace has gained during that
  call) are started when the route awaits \<^verbatim>\<open>update_message_status\<close>, before its query
  and its commit.\<close>

definition send_message ::
  "'h network \<Rightarrow> MessageCreate \<Rightarrow> AuthenticatedUser \<Rightarrow> nat \<Rightarrow> nat \<Rightarrow> 'h system \<Rightarrow>
   (http_error + MessageResponse) \<times> 'h system" where
  "send_message net message_data current_user utcnow_conversation utcnow_message s =
     (case get_or_create_user (auth_username current_user) None None None None None s of
        (Inl e, s1) \<Rightarrow> (Inl failed_to_send, s1)
      | (Inr sender, s1) \<Rightarrow>
          (case get_user_by_id (receiver_id message_data) s1 of
             Inl e \<Rightarrow> (Inl failed_to_send, s1)
           | Inr None \<Rightarrow> (Inl (HTTPException 404 ''Receiver not found''), s1)
           | Inr (Some receiver) \<Rightarrow>
               (case create_message (usr_id sender) message_data
                       utcnow_conversation utcnow_message s1 of
                  (Inl e, s2) \<Rightarrow> (Inl failed_to_send, s2)
                | (Inr message, s2) \<Rightarrow>
                    (let message_response = model_validate message
                     in if is_user_online s2 (receiver_id message_data)
                        then
                          (let s3 = send_personal_message net
                                      (New_message message_response)
                                      (receiver_id message_data) s2;
                               s3' = run_tasks net
                                       (tasks (drop (length (trace s2)) (trace s3))) s3
                           in case update_message_status (msg_id message) DELIVERED s3' of
                                (Inl e, s4) \<Rightarrow> (Inl failed_to_send, s4)
                              | (Inr updated, s4) \<Rightarrow>
                                  (Inr (message_response\<lparr>resp_status := DELIVERED\<rparr>), s4))
                        else (Inr message_response, s2)))))"

section \<open>Observations on states and traces\<close>

text \<open>The connections registered for a user: the empty list when the user is not a key.\<close>

definition connections_of :: "'h system \<Rightarrow> int \<Rightarrow> 'h list" where
  "connections_of s user_id =
     (case map_of (active_connections s) user_id of
        None \<Rightarrow> []
      | Some connections \<Rightarrow> connections)"

text \<open>Every connection in the registry, in the order of the broadcast.\<close>

definition all_connections :: "'h system \<Rightarrow> 'h list" where
  "all_connections s = concat (map snd (active_connections s))"

text \<open>The status stored for a message: the status column of the rows with that key.\<close>

definition stored_status :: "'h system \<Rightarrow> int \<Rightarrow> MessageStatus list" where
  "stored_status s message_id =
     map msg_status (filter (\<lambda>m. msg_id m = message_id) (messages s))"

text \<open>The state in which the route runs \<^verbatim>\<open>update_message_status\<close>: after
  \<^verbatim>\<open>send_personal_message\<close> and the tasks scheduled during it.\<close>

definition awaiting_update :: "'h network \<Rightarrow> payload \<Rightarrow> int \<Rightarrow> 'h system \<Rightarrow> 'h system" where
  "awaiting_update net message user_id s =
     (let s3 = send_personal_message net message user_id s
      in run_tasks net (tasks (drop (length (trace s)) (trace s3))) s3)"

text \<open>The registry invariant: no key of the dictionary has an empty list.\<close>

definition registry_invariant :: "'h system \<Rightarrow> bool" where
  "registry_invariant s = list_all (\<lambda>(user_id, connections). connections \<noteq> []) (active_connections s)"

text \<open>A sequence of \<^verbatim>\<open>connect\<close> and \<^verbatim>\<open>disconnect\<close> calls for one user.\<close>

datatype 'h call = Connect 'h | Disconnect 'h

fun run_calls :: "'h network \<Rightarrow> int \<Rightarrow> 'h call list \<Rightarrow> 'h system \<Rightarrow> 'h system" where
  "run_calls net user_id [] s = s"
| "run_calls net user_id (Connect websocket # calls) s =
     run_calls net user_id calls (connect net user_id websocket s)"
| "run_calls net user_id (Disconnect websocket # calls) s =
     run_calls net user_id calls (disconnect user_id websocket s)"

text \<open>The specification's count for such a sequence: the registrations minus the
  deregistrations, clamped at zero, where a deregistration of a handle that is not
  present at that moment is ignored. \<open>counted\<close> keeps the calls that count, given the
  handles present before the sequence.\<close>

fun counted :: "'h multiset \<Rightarrow> 'h call list \<Rightarrow> 'h call list" where
  "counted present [] = []"
| "counted present (Connect h # calls) = Connect h # counted (add_mset h present) calls"
| "counted present (Disconnect h # calls) =
     (if h \<in># present then Disconnect h # counted (present - {#h#}) calls
      else counted present calls)"

fun is_Connect :: "'h call \<Rightarrow> bool" where
  "is_Connect (Connect h) = True"
| "is_Connect (Disconnect h) = False"

definition net_registered :: "'h call list \<Rightarrow> int" where
  "net_registered calls =
     max 0 (int (length (filter is_Connect (counted {#} calls)))
            - int (length (filter (\<lambda>c. \<not> is_Connect c) (counted {#} calls))))"

section \<open>Example states\<close>

text \<open>The service right after start: empty tables, nobody connected.\<close>

definition just_started :: "nat system" where
  "just_started =
     \<lparr>users = [], conversations = [], messages = [], active_connections = [], trace = []\<rparr>"

text \<open>User 7 with one connection, with two connections, and user 9 alone.\<close>

definition seven_once :: "nat system" where
  "seven_once = just_started\<lparr>active_connections := [(7, [70])]\<rparr>"

definition seven_twice :: "nat system" where
  "seven_twice = just_started\<lparr>active_connections := [(7, [70, 71])]\<rparr>"

definition nine_only :: "nat system" where
  "nine_only = just_started\<lparr>active_connections := [(9, [90])]\<rparr>"

text \<open>A network on which every send succeeds, one on which every send fails, and one
  on which the sends to connection 90 fail.\<close>

definition accept_all :: "nat network" where
  "accept_all tr connection frame = True"


definition refuse_90 :: "nat network" where
  "refuse_90 tr connection frame = (connection \<noteq> 90)"


text \<open>Three users in the table, user 9 connected twice, and a message from the first
  user to user 9 and one to user 42, who is not connected.\<close>

definition alice :: User where
  "alice = \<lparr>usr_id = 3, usr_email = ''alice@example.org'', usr_password = ''pw3'',
     usr_username = ''alice'', usr_full_name = None, usr_bio = None, usr_avatar_url = None\<rparr>"

definition bob :: User where
  "bob = \<lparr>usr_id = 9, usr_email = ''bob@example.org'', usr_password = ''pw9'',
     usr_username = ''bob'', usr_full_name = None, usr_bio = None, usr_avatar_url = None\<rparr>"

definition carol :: User where
  "carol = \<lparr>usr_id = 42, usr_email = ''carol@example.org'', usr_password = ''pw42'',
     usr_username = ''carol'', usr_full_name = None, usr_bio = None, usr_avatar_url = None\<rparr>"

definition chat_system :: "nat system" where
  "chat_system =
     \<lparr>users = [alice, bob, carol], conversations = [], messages = [],
      active_connections = [(9, [90, 91])], trace = []\<rparr>"

text \<open>The same, with the first user connected as well.\<close>

definition chat_system_both :: "nat system" where
  "chat_system_both = chat_system\<lparr>active_connections := [(3, [30]), (9, [90, 91])]\<rparr>"

definition alice_auth :: AuthenticatedUser where
  "alice_auth = \<lparr>auth_user_id = 3, auth_username = ''alice'', auth_email = None\<rparr>"

definition hello_bob :: MessageCreate where
  "hello_bob = \<lparr>receiver_id = 9, content = ''hello''\<rparr>"

definition hello_carol :: MessageCreate where
  "hello_carol = \<lparr>receiver_id = 42, content = ''hello''\<rparr>"


text \<open>The rows and the response these requests create, at the times 100 and 101.\<close>

definition first_conversation :: "int \<Rightarrow> Conversation" where
  "first_conversation receiver =
     \<lparr>conv_id = 1, conv_participant_1_id = 3, conv_participant_2_id = receiver,
      conv_created_at = 100\<rparr>"

definition first_message :: "MessageStatus \<Rightarrow> Message" where
  "first_message status =
     \<lparr>msg_id = 1, msg_conversation_id = 1, msg_sender_id = 3, msg_content = ''hello'',
      msg_timestamp = 101, msg_status = status\<rparr>"

definition first_response :: "MessageStatus \<Rightarrow> MessageResponse" where
  "first_response status =
     \<lparr>resp_id = 1, resp_conversation_id = 1, resp_sender_id = 3, resp_content = ''hello'',
      resp_timestamp = 101, resp_status = status\<rparr>"

text \<open>The state after the message to user 9 has been handled, given what is left of
  the registry and the trace, and the state after the message to user 42.\<close>

definition after_hello_bob :: "(int \<times> nat list) list \<Rightarrow> nat event list \<Rightarrow> nat system" where
  "after_hello_bob registry tr =
     chat_system\<lparr>conversations := [first_conversation 9],
                 messages := [first_message DELIVERED],
                 active_connections := registry,
                 trace := tr\<rparr>"

definition after_hello_carol :: "nat system" where
  "after_hello_carol =
     chat_system\<lparr>conversations := [first_conversation 42],
                 messages := [first_message SENT]\<rparr>"

section \<open>Properties of the connection manager\<close>

subsection \<open>Sending and broadcasting\<close>

lemma send_text_simps [simp]:
  "fst (send_text net c p s) = net (trace s) c p"
  "trace (snd (send_text net c p s)) = trace s @ [Send_text c p (net (trace s) c p)]"
  "active_connections (snd (send_text net c p s)) = active_connections s"
  "users (snd (send_text net c p s)) = users s"
  "conversations (snd (send_text net c p s)) = conversations s"
  "messages (snd (send_text net c p s)) = messages s"
  by (simp_all add: send_text_def Let_def)

lemma attempts_append [simp]: "attempts (xs @ ys) = attempts xs @ attempts ys"
  by (induction xs rule: attempts.induct) simp_all

lemma failures_append [simp]: "failures (xs @ ys) = failures xs @ failures ys"
  by (induction xs rule: failures.induct) simp_all

lemma tasks_append [simp]: "tasks (xs @ ys) = tasks xs @ tasks ys"
  by (induction xs rule: tasks.induct) simp_all

lemma commits_append [simp]: "commits (xs @ ys) = commits xs @ commits ys"
  by (induction xs rule: commits.induct) simp_all

lemma broadcast_connections_frame [simp]:
  "active_connections (broadcast_connections net p cs s) = active_connections s"
  "users (broadcast_connections net p cs s) = users s"
  "conversations (broadcast_connections net p cs s) = conversations s"
  "messages (broadcast_connections net p cs s) = messages s"
  by (induction cs arbitrary: s) simp_all

lemma broadcast_connections_trace:
  "\<exists>evs. trace (broadcast_connections net p cs s) = trace s @ evs \<and>
         attempts evs = map (\<lambda>c. (c, p)) cs \<and> tasks evs = [] \<and> commits evs = []"
proof (induction cs arbitrary: s)
  case Nil
  then show ?case by simp
next
  case (Cons c cs)
  obtain evs where e: "trace (broadcast_connections net p cs (snd (send_text net c p s)))
      = trace (snd (send_text net c p s)) @ evs" "attempts evs = map (\<lambda>c. (c, p)) cs" "tasks evs = []"
      "commits evs = []"
    using Cons.IH by blast
  show ?case
    by (rule exI [of _ "Send_text c p (net (trace s) c p) # evs"]) (simp add: e)
qed

lemma broadcast_items_frame [simp]:
  "active_connections (broadcast_items net p items s) = active_connections s"
  "users (broadcast_items net p items s) = users s"
  "conversations (broadcast_items net p items s) = conversations s"
  "messages (broadcast_items net p items s) = messages s"
  by (induction items arbitrary: s) auto

lemma broadcast_items_trace:
  "\<exists>evs. trace (broadcast_items net p items s) = trace s @ evs \<and>
         attempts evs = map (\<lambda>c. (c, p)) (concat (map snd items)) \<and> tasks evs = [] \<and>
         commits evs = []"
proof (induction items arbitrary: s)
  case Nil
  then show ?case by simp
next
  case (Cons item items)
  obtain u cs where item: "item = (u, cs)" by (cases item)
  obtain evs1 where e1: "trace (broadcast_connections net p cs s) = trace s @ evs1"
      "attempts evs1 = map (\<lambda>c. (c, p)) cs" "tasks evs1 = []" "commits evs1 = []"
    using broadcast_connections_trace by blast
  obtain evs2 where e2: "trace (broadcast_items net p items (broadcast_connections net p cs s))
      = trace (broadcast_connections net p cs s) @ evs2"
      "attempts evs2 = map (\<lambda>c. (c, p)) (concat (map snd items))" "tasks evs2 = []"
      "commits evs2 = []"
    using Cons.IH by blast
  show ?case
    by (rule exI [of _ "evs1 @ evs2"]) (simp add: item e1 e2)
qed

lemma broadcast_user_status_frame [simp]:
  "active_connections (broadcast_user_status net u st s) = active_connections s"
  "users (broadcast_user_status net u st s) = users s"
  "conversations (broadcast_user_status net u st s) = conversations s"
  "messages (broadcast_user_status net u st s) = messages s"
  by (simp_all add: broadcast_user_status_def)

lemma broadcast_user_status_trace:
  "\<exists>evs. trace (broadcast_user_status net u st s) = trace s @ evs \<and>
         attempts evs = map (\<lambda>c. (c, User_status u st)) (all_connections s) \<and> tasks evs = [] \<and>
         commits evs = []"
  unfolding broadcast_user_status_def all_connections_def
  by (rule broadcast_items_trace)

lemma run_tasks_frame [simp]:
  "active_connections (run_tasks net scheduled s) = active_connections s"
  "users (run_tasks net scheduled s) = users s"
  "conversations (run_tasks net scheduled s) = conversations s"
  "messages (run_tasks net scheduled s) = messages s"
  by (induction scheduled arbitrary: s) auto

subsection \<open>Facts about \<open>disconnect\<close>\<close>

lemma disconnect_absent:
  "map_of (active_connections s) u = None \<Longrightarrow> disconnect u h s = s"
  by (simp add: disconnect_def)

lemma disconnect_last:
  "map_of (active_connections s) u = Some cs \<Longrightarrow> remove1 h cs = [] \<Longrightarrow>
   disconnect u h s =
     s\<lparr>active_connections := AList.delete u (active_connections s),
       trace := trace s @ [Create_task u ''offline'']\<rparr>"
proof -
  assume m: "map_of (active_connections s) u = Some cs" and r: "remove1 h cs = []"
  have "(if h \<in> set cs then remove1 h cs else cs) = []"
    using r by (auto simp add: remove1_idem)
  then show ?thesis
    using m by (simp add: disconnect_def Let_def AList.delete_update_same)
qed

lemma disconnect_other:
  "map_of (active_connections s) u = Some cs \<Longrightarrow> remove1 h cs \<noteq> [] \<Longrightarrow>
   disconnect u h s = s\<lparr>active_connections := AList.update u (remove1 h cs) (active_connections s)\<rparr>"
proof -
  assume m: "map_of (active_connections s) u = Some cs" and r: "remove1 h cs \<noteq> []"
  have "(if h \<in> set cs then remove1 h cs else cs) = remove1 h cs"
    by (simp add: remove1_idem)
  then show ?thesis
    using m r by (simp add: disconnect_def Let_def)
qed

lemma connections_of_disconnect:
  "connections_of (disconnect u h s) u = remove1 h (connections_of s u)"
proof (cases "map_of (active_connections s) u")
  case None
  then show ?thesis by (simp add: disconnect_absent connections_of_def)
next
  case (Some cs)
  show ?thesis
  proof (cases "remove1 h cs = []")
    case True
    then show ?thesis
      using Some by (simp add: disconnect_last connections_of_def AList.delete_conv')
  next
    case False
    then show ?thesis
      using Some by (simp add: disconnect_other connections_of_def AList.update_conv')
  qed
qed

lemma disconnect_db [simp]:
  "users (disconnect u h s) = users s"
  "conversations (disconnect u h s) = conversations s"
  "messages (disconnect u h s) = messages s"
  by (auto simp add: disconnect_def Let_def split: option.splits)

subsection \<open>Facts about \<open>connect\<close> and the registry invariant\<close>

lemma is_user_online_iff: "is_user_online s u = (connections_of s u \<noteq> [])"
  by (simp add: is_user_online_def connections_of_def split: option.splits)

lemma connect_eq:
  "connect net u h s =
     (if is_user_online s u
      then s\<lparr>active_connections := AList.update u (connections_of s u @ [h]) (active_connections s)\<rparr>
      else broadcast_user_status net u ''online''
             (s\<lparr>active_connections := AList.update u (connections_of s u @ [h]) (active_connections s)\<rparr>))"
  by (cases "map_of (active_connections s) u")
     (simp_all add: connect_def is_user_online_def connections_of_def Let_def AList.update_conv')

lemma active_connections_connect:
  "active_connections (connect net u h s) =
     AList.update u (connections_of s u @ [h]) (active_connections s)"
  by (simp add: connect_eq)

lemma connections_of_connect:
  "connections_of (connect net u h s) u = connections_of s u @ [h]"
  by (simp add: connections_of_def [of "connect net u h s"] active_connections_connect
      AList.update_conv')

lemma connect_db [simp]:
  "users (connect net u h s) = users s"
  "conversations (connect net u h s) = conversations s"
  "messages (connect net u h s) = messages s"
  by (simp_all add: connect_eq)

lemma set_update_subset: "set (AList.update k v al) \<subseteq> insert (k, v) (set al)"
  by (induction al) auto

lemma set_delete_subset: "set (AList.delete k al) \<subseteq> set al"
  by (auto simp add: AList.delete_eq)

lemma list_all_update:
  "P (k, v) \<Longrightarrow> list_all P al \<Longrightarrow> list_all P (AList.update k v al)"
  using set_update_subset [of k v al] by (auto simp add: list_all_iff)

lemma list_all_delete: "list_all P al \<Longrightarrow> list_all P (AList.delete k al)"
  using set_delete_subset [of k al] by (auto simp add: list_all_iff)

lemma registry_invariant_connect:
  "registry_invariant s \<Longrightarrow> registry_invariant (connect net u h s)"
  by (simp add: registry_invariant_def active_connections_connect list_all_update)

lemma registry_invariant_disconnect:
  "registry_invariant s \<Longrightarrow> registry_invariant (disconnect u h s)"
proof (cases "map_of (active_connections s) u")
  case None
  assume "registry_invariant s"
  then show ?thesis using None by (simp add: disconnect_absent)
next
  case (Some cs)
  assume inv: "registry_invariant s"
  show ?thesis
  proof (cases "remove1 h cs = []")
    case True
    then show ?thesis
      using inv by (simp add: disconnect_last [OF Some True] registry_invariant_def list_all_delete)
  next
    case False
    then show ?thesis
      using inv by (simp add: disconnect_other [OF Some False] registry_invariant_def list_all_update)
  qed
qed

lemma registry_invariant_disconnect_each:
  "registry_invariant s \<Longrightarrow> registry_invariant (disconnect_each u ds s)"
  by (induction ds arbitrary: s) (simp_all add: registry_invariant_disconnect)

lemma send_collect_result:
  "\<exists>evs. send_collect net p cs acc s = (acc @ failures evs, s\<lparr>trace := trace s @ evs\<rparr>) \<and>
         attempts evs = map (\<lambda>c. (c, p)) cs \<and> tasks evs = [] \<and> commits evs = []"
proof (induction cs arbitrary: acc s)
  case Nil
  show ?case by (rule exI [of _ "[]"]) simp
next
  case (Cons c cs)
  let ?s1 = "\<lambda>ok. s\<lparr>trace := trace s @ [Send_text c p ok]\<rparr>"
  show ?case
  proof (cases "net (trace s) c p")
    case True
    have step: "send_collect net p (c # cs) acc s = send_collect net p cs acc (?s1 True)"
      using True by (simp add: send_text_def Let_def)
    obtain evs where e:
        "send_collect net p cs acc (?s1 True) =
           (acc @ failures evs, (?s1 True)\<lparr>trace := trace (?s1 True) @ evs\<rparr>)"
        "attempts evs = map (\<lambda>c. (c, p)) cs" "tasks evs = []" "commits evs = []"
      using Cons.IH [of acc "?s1 True"] by blast
    show ?thesis
      unfolding step e(1)
      by (rule exI [of _ "Send_text c p True # evs"]) (simp add: e(2,3,4))
  next
    case False
    have step: "send_collect net p (c # cs) acc s = send_collect net p cs (acc @ [c]) (?s1 False)"
      using False by (simp add: send_text_def Let_def)
    obtain evs where e:
        "send_collect net p cs (acc @ [c]) (?s1 False) =
           ((acc @ [c]) @ failures evs, (?s1 False)\<lparr>trace := trace (?s1 False) @ evs\<rparr>)"
        "attempts evs = map (\<lambda>c. (c, p)) cs" "tasks evs = []" "commits evs = []"
      using Cons.IH [of "acc @ [c]" "?s1 False"] by blast
    show ?thesis
      unfolding step e(1)
      by (rule exI [of _ "Send_text c p False # evs"]) (simp add: e(2,3,4))
  qed
qed

lemma send_collect_frame [simp]:
  "active_connections (snd (send_collect net p cs acc s)) = active_connections s"
  "users (snd (send_collect net p cs acc s)) = users s"
  "conversations (snd (send_collect net p cs acc s)) = conversations s"
  "messages (snd (send_collect net p cs acc s)) = messages s"
  using send_collect_result [of net p cs acc s] by auto

lemma registry_invariant_send_personal_message:
  "registry_invariant s \<Longrightarrow> registry_invariant (send_personal_message net p u s)"
proof (cases "map_of (active_connections s) u")
  case None
  assume "registry_invariant s"
  then show ?thesis using None by (simp add: send_personal_message_def)
next
  case (Some cs)
  assume inv: "registry_invariant s"
  obtain ds s' where sc: "send_collect net p cs [] s = (ds, s')"
    by (cases "send_collect net p cs [] s")
  have "active_connections s' = active_connections s"
    using send_collect_frame(1) [of net p cs "[]" s] sc by simp
  then have "registry_invariant s'"
    using inv by (simp add: registry_invariant_def)
  then show ?thesis
    using Some sc by (simp add: send_personal_message_def registry_invariant_disconnect_each)
qed

lemma registry_invariant_keys:
  assumes "registry_invariant s"
  shows "(v \<in> fst ` set (active_connections s)) = (connections_of s v \<noteq> [])"
proof
  assume "v \<in> fst ` set (active_connections s)"
  then obtain cs where m: "map_of (active_connections s) v = Some cs"
    by (metis domD dom_map_of_conv_image_fst)
  then have "(v, cs) \<in> set (active_connections s)" by (rule map_of_SomeD)
  then have "cs \<noteq> []"
    using assms by (auto simp add: registry_invariant_def list_all_iff)
  then show "connections_of s v \<noteq> []" using m by (simp add: connections_of_def)
next
  assume "connections_of s v \<noteq> []"
  then have "map_of (active_connections s) v \<noteq> None"
    by (auto simp add: connections_of_def split: option.splits)
  then show "v \<in> fst ` set (active_connections s)"
    by (simp add: map_of_eq_None_iff)
qed

subsection \<open>Presence transitions\<close>

text \<open>
  Claim C4. Registering the first handle of a user (the user had no handle before)
  produces exactly one \<^verbatim>\<open>online\<close> status frame for every handle that is in the registry
  after the insertion, in the order of the registry and with no other event in the
  trace, and the new handle is one of them. Registering a further handle for a user who is online adds
  nothing to the trace.
\<close>

theorem connect_first_handle_broadcasts_online:
  "(\<not> is_user_online s u \<longrightarrow>
      (\<exists>evs. trace (connect net u h s) = trace s @ evs \<and>
             attempts evs = map (\<lambda>c. (c, User_status u ''online''))
                              (all_connections (connect net u h s)) \<and>
             tasks evs = [] \<and> commits evs = []) \<and>
      h \<in> set (all_connections (connect net u h s))) \<and>
   (is_user_online s u \<longrightarrow> trace (connect net u h s) = trace s)"
proof (intro conjI impI)
  let ?s1 = "s\<lparr>active_connections := AList.update u (connections_of s u @ [h]) (active_connections s)\<rparr>"
  assume off: "\<not> is_user_online s u"
  then have c: "connect net u h s = broadcast_user_status net u ''online'' ?s1"
    by (simp add: connect_eq)
  have a: "all_connections (connect net u h s) = all_connections ?s1"
    by (simp add: all_connections_def c)
  show "\<exists>evs. trace (connect net u h s) = trace s @ evs \<and>
             attempts evs = map (\<lambda>c. (c, User_status u ''online''))
                              (all_connections (connect net u h s)) \<and>
             tasks evs = [] \<and> commits evs = []"
    unfolding a unfolding c
    using broadcast_user_status_trace [of net u "''online''" ?s1] by simp
  have "(u, connections_of s u @ [h]) \<in> set (active_connections (connect net u h s))"
    unfolding active_connections_connect
    by (rule map_of_SomeD) (simp add: AList.update_conv')
  then show "h \<in> set (all_connections (connect net u h s))"
    unfolding all_connections_def by force
next
  assume "is_user_online s u"
  then show "trace (connect net u h s) = trace s"
    by (simp add: connect_eq)
qed

theorem connect_first_handle_broadcasts_online_witness:
  "\<not> is_user_online nine_only 7 \<and>
   trace (connect accept_all 7 70 nine_only) =
     [Send_text 90 (User_status 7 ''online'') True,
      Send_text 70 (User_status 7 ''online'') True] \<and>
   all_connections (connect accept_all 7 70 nine_only) = [90, 70] \<and>
   is_user_online nine_only 9 \<and>
   trace (connect accept_all 9 91 nine_only) = trace nine_only"
  using connect_first_handle_broadcasts_online [of nine_only 7 accept_all 70]
    connect_first_handle_broadcasts_online [of nine_only 9 accept_all 91]
  by (simp add: nine_only_def just_started_def accept_all_def is_user_online_def connect_def
      broadcast_user_status_def send_text_def all_connections_def)

text \<open>
  Claim C5. Deregistering the only handle of a user schedules exactly one \<^verbatim>\<open>offline\<close>
  broadcast and removes the user's entry from the registry. Deregistering a handle
  while the user keeps at least one handle schedules nothing and leaves the user with
  the remaining handles.
\<close>

theorem disconnect_last_handle_schedules_offline:
  "(connections_of s u = [h] \<longrightarrow>
      trace (disconnect u h s) = trace s @ [Create_task u ''offline''] \<and>
      map_of (active_connections (disconnect u h s)) u = None) \<and>
   (remove1 h (connections_of s u) \<noteq> [] \<longrightarrow>
      trace (disconnect u h s) = trace s \<and>
      connections_of (disconnect u h s) u = remove1 h (connections_of s u))"
proof (intro conjI impI)
  assume a: "connections_of s u = [h]"
  then have m: "map_of (active_connections s) u = Some [h]"
    by (simp add: connections_of_def split: option.splits)
  show "trace (disconnect u h s) = trace s @ [Create_task u ''offline'']"
    using disconnect_last [OF m, of h] by simp
  show "map_of (active_connections (disconnect u h s)) u = None"
    using disconnect_last [OF m, of h] by (simp add: AList.delete_conv')
next
  assume a: "remove1 h (connections_of s u) \<noteq> []"
  then obtain cs where m: "map_of (active_connections s) u = Some cs" and r: "remove1 h cs \<noteq> []"
    by (auto simp add: connections_of_def split: option.splits)
  show "trace (disconnect u h s) = trace s"
    using disconnect_other [OF m r] by simp
  show "connections_of (disconnect u h s) u = remove1 h (connections_of s u)"
    by (rule connections_of_disconnect)
qed

theorem disconnect_last_handle_schedules_offline_witness:
  "connections_of seven_once 7 = [70] \<and>
   trace (disconnect 7 70 seven_once) = [Create_task 7 ''offline''] \<and>
   map_of (active_connections (disconnect 7 70 seven_once)) 7 = None \<and>
   remove1 70 (connections_of seven_twice 7) \<noteq> [] \<and>
   trace (disconnect 7 70 seven_twice) = [] \<and>
   connections_of (disconnect 7 70 seven_twice) 7 = [71]"
  using disconnect_last_handle_schedules_offline [of seven_once 7 70]
    disconnect_last_handle_schedules_offline [of seven_twice 7 70]
  by (simp add: seven_once_def seven_twice_def just_started_def connections_of_def)

text \<open>
  Claim C6, as amended. When the handle occurs at most once among the user's
  connections, a second \<^verbatim>\<open>disconnect(user, handle)\<close> right after the first changes
  nothing: the registry, the trace (so no further offline broadcast is scheduled) and
  the tables are those after the first call.
\<close>

theorem disconnect_twice_single_registration:
  assumes "count_list (connections_of s u) h \<le> 1"
  shows "disconnect u h (disconnect u h s) = disconnect u h s"
proof (cases "map_of (active_connections s) u")
  case None
  then show ?thesis by (simp add: disconnect_absent)
next
  case (Some cs)
  have cs: "connections_of s u = cs" using Some by (simp add: connections_of_def)
  show ?thesis
  proof (cases "remove1 h cs = []")
    case True
    have "map_of (active_connections (disconnect u h s)) u = None"
      using disconnect_last [OF Some True] by (simp add: AList.delete_conv')
    then show ?thesis by (rule disconnect_absent)
  next
    case False
    have notin: "h \<notin> set (remove1 h cs)"
      using assms unfolding cs
      by (induction cs) (auto simp add: count_list_0_iff split: if_splits)
    have d1: "disconnect u h s = s\<lparr>active_connections := AList.update u (remove1 h cs) (active_connections s)\<rparr>"
      using disconnect_other [OF Some False] .
    have m': "map_of (active_connections (disconnect u h s)) u = Some (remove1 h cs)"
      unfolding d1 by (simp add: AList.update_conv')
    have r': "remove1 h (remove1 h cs) \<noteq> []"
      using notin False by (simp add: remove1_idem)
    show ?thesis
      using disconnect_other [OF m' r'] notin unfolding d1 by (simp add: remove1_idem)
  qed
qed

theorem disconnect_twice_single_registration_witness:
  "count_list (connections_of seven_once 7) 70 \<le> 1 \<and>
   disconnect 7 70 (disconnect 7 70 seven_once) = disconnect 7 70 seven_once \<and>
   trace (disconnect 7 70 seven_once) = [Create_task 7 ''offline'']"
  using disconnect_twice_single_registration [of seven_once 7 70]
  by (simp add: seven_once_def just_started_def connections_of_def disconnect_def)

text \<open>
  Claim C6 as stated fails when the same handle has been registered twice for the
  user: \<^verbatim>\<open>list.remove\<close> takes out one occurrence per call, so the first
  \<^verbatim>\<open>disconnect\<close> leaves the user online and the second one takes the user offline and
  schedules the offline broadcast.
\<close>

theorem disconnect_twice_counterexample:
  "active_connections
     (disconnect 7 70 (connect accept_all 7 70 (connect accept_all 7 70 just_started))) =
     [(7, [70])] \<and>
   tasks (trace
     (disconnect 7 70 (connect accept_all 7 70 (connect accept_all 7 70 just_started)))) =
     [] \<and>
   active_connections
     (disconnect 7 70 (disconnect 7 70
        (connect accept_all 7 70 (connect accept_all 7 70 just_started)))) = [] \<and>
   tasks (trace
     (disconnect 7 70 (disconnect 7 70
        (connect accept_all 7 70 (connect accept_all 7 70 just_started))))) =
     [(7, ''offline'')]"
  by (simp add: just_started_def accept_all_def connect_def disconnect_def
      broadcast_user_status_def send_text_def)

subsection \<open>The registry invariant\<close>

text \<open>
  Claim C3. If no key of the registry has an empty list of connections, then the same
  holds after \<^verbatim>\<open>connect\<close>, after \<^verbatim>\<open>disconnect\<close> and after \<^verbatim>\<open>send_personal_message\<close>,
  and in each of these states a user is a key of the registry exactly when the user
  has a connection.
\<close>

theorem registry_invariant_preserved:
  assumes "registry_invariant s"
  shows "registry_invariant (connect net u h s) \<and>
         registry_invariant (disconnect u h s) \<and>
         registry_invariant (send_personal_message net p u s) \<and>
         (v \<in> fst ` set (active_connections (connect net u h s))) =
           (connections_of (connect net u h s) v \<noteq> []) \<and>
         (v \<in> fst ` set (active_connections (disconnect u h s))) =
           (connections_of (disconnect u h s) v \<noteq> []) \<and>
         (v \<in> fst ` set (active_connections (send_personal_message net p u s))) =
           (connections_of (send_personal_message net p u s) v \<noteq> [])"
  using assms
  by (simp add: registry_invariant_connect registry_invariant_disconnect
      registry_invariant_send_personal_message registry_invariant_keys)

theorem registry_invariant_preserved_witness:
  "registry_invariant seven_twice \<and>
   registry_invariant (connect accept_all 7 72 seven_twice) \<and>
   registry_invariant (disconnect 7 72 seven_twice) \<and>
   registry_invariant
     (send_personal_message accept_all (User_status 9 ''online'') 7 seven_twice) \<and>
   active_connections (connect accept_all 7 72 seven_twice) = [(7, [70, 71, 72])] \<and>
   connections_of (connect accept_all 7 72 seven_twice) 7 = [70, 71, 72]"
  using registry_invariant_preserved [where s = seven_twice and net = accept_all
      and p = "User_status 9 ''online''" and u = 7 and h = 72 and v = 7]
  by (simp add: seven_twice_def just_started_def registry_invariant_def accept_all_def
      connections_of_def connect_def)

subsection \<open>Sequences of calls\<close>

lemma run_calls_count:
  "int (length (connections_of (run_calls net u calls s) u)) =
     int (length (connections_of s u))
     + int (length (filter is_Connect (counted (mset (connections_of s u)) calls)))
     - int (length (filter (\<lambda>c. \<not> is_Connect c) (counted (mset (connections_of s u)) calls)))"
proof (induction calls arbitrary: s)
  case Nil
  show ?case by simp
next
  case (Cons c calls)
  show ?case
  proof (cases c)
    case (Connect h)
    show ?thesis
      using Cons.IH [of "connect net u h s"]
      by (simp add: Connect connections_of_connect)
  next
    case (Disconnect h)
    show ?thesis
    proof (cases "h \<in> set (connections_of s u)")
      case True
      then have "length (connections_of s u) > 0"
        by (cases "connections_of s u") auto
      moreover have "length (remove1 h (connections_of s u)) = length (connections_of s u) - 1"
        using True by (simp add: length_remove1)
      ultimately have l: "int (length (remove1 h (connections_of s u))) =
          int (length (connections_of s u)) - 1"
        by linarith
      show ?thesis
        using Cons.IH [of "disconnect u h s"] True
        unfolding connections_of_disconnect l
        by (simp add: Disconnect connections_of_disconnect)
    next
      case False
      then show ?thesis
        using Cons.IH [of "disconnect u h s"]
        by (simp add: Disconnect connections_of_disconnect remove1_idem)
    qed
  qed
qed

text \<open>
  Claim C2. Start from a registry with no entry and apply any finite sequence of
  \<^verbatim>\<open>connect(user, handle)\<close> and \<^verbatim>\<open>disconnect(user, handle)\<close> calls for one user.
  Afterwards \<^verbatim>\<open>is_user_online(user)\<close> is true exactly when the number of registrations
  minus the number of deregistrations, clamped at zero and not counting the
  deregistrations of a handle that is not present at that moment, is greater than zero.
\<close>

theorem is_user_online_iff_net_registered:
  "active_connections s = [] \<Longrightarrow>
   is_user_online (run_calls net u calls s) u = (0 < net_registered calls)"
proof -
  assume e: "active_connections s = []"
  then have c: "connections_of s u = []" by (simp add: connections_of_def)
  have "is_user_online (run_calls net u calls s) u =
          (0 < int (length (connections_of (run_calls net u calls s) u)))"
    by (simp add: is_user_online_iff)
  also have "\<dots> = (0 < net_registered calls)"
    unfolding run_calls_count [of net u calls s] c net_registered_def
    by (simp add: max_def)
  finally show ?thesis .
qed

theorem is_user_online_iff_net_registered_witness:
  "active_connections just_started = [] \<and>
   net_registered [Connect (70::nat), Disconnect 71, Connect 71, Disconnect 70] = 1 \<and>
   is_user_online
     (run_calls accept_all 7 [Connect 70, Disconnect 71, Connect 71, Disconnect 70]
        just_started) 7 \<and>
   net_registered [Connect (70::nat), Disconnect 70, Disconnect 70] = 0 \<and>
   \<not> is_user_online
       (run_calls accept_all 7 [Connect 70, Disconnect 70, Disconnect 70] just_started) 7"
  using is_user_online_iff_net_registered [of just_started accept_all 7
      "[Connect 70, Disconnect 71, Connect 71, Disconnect 70]"]
    is_user_online_iff_net_registered [of just_started accept_all 7
      "[Connect 70, Disconnect 70, Disconnect 70]"]
  by (simp add: just_started_def net_registered_def)

subsection \<open>Failures during a broadcast\<close>

text \<open>
  Claim C8, as amended. During a presence broadcast one send is attempted on every
  registered handle, in the order of the registry, whatever the network does with the
  other sends: a failed send neither stops the loop nor reaches the caller. A failed
  send is only logged; the broadcast hands no handle back to its caller, schedules
  nothing and commits nothing.
\<close>

theorem broadcast_attempts_every_connection:
  "\<exists>evs. trace (broadcast_user_status net u st s) = trace s @ evs \<and>
         attempts evs = map (\<lambda>c. (c, User_status u st)) (all_connections s) \<and>
         tasks evs = [] \<and> commits evs = []"
  by (rule broadcast_user_status_trace)

text \<open>
  Claim C8 as stated fails: the send to connection 90 fails during the broadcast, the
  send to connection 91 still takes place, and afterwards connection 90 is registered
  as before; no deregistration has been triggered or scheduled.
\<close>

theorem broadcast_failure_counterexample:
  "trace (broadcast_user_status refuse_90 7 ''online'' chat_system) =
     [Send_text 90 (User_status 7 ''online'') False,
      Send_text 91 (User_status 7 ''online'') True] \<and>
   active_connections (broadcast_user_status refuse_90 7 ''online'' chat_system) =
     [(9, [90, 91])]"
  by (simp add: broadcast_user_status_def send_text_def refuse_90_def chat_system_def)

section \<open>Properties of the message route\<close>

subsection \<open>Facts about \<open>send_personal_message\<close>\<close>

lemma disconnect_each_absent:
  "map_of (active_connections s) u = None \<Longrightarrow> disconnect_each u ds s = s"
  by (induction ds) (simp_all add: disconnect_absent)

lemma fold_remove1_Nil: "fold remove1 ds [] = []"
  by (induction ds) simp_all

lemma disconnect_each_present:
  "map_of (active_connections s) u = Some cs \<Longrightarrow> cs \<noteq> [] \<Longrightarrow>
   disconnect_each u ds s =
     (if fold remove1 ds cs = []
      then s\<lparr>active_connections := AList.delete u (active_connections s),
             trace := trace s @ [Create_task u ''offline'']\<rparr>
      else s\<lparr>active_connections := AList.update u (fold remove1 ds cs) (active_connections s)\<rparr>)"
proof (induction ds arbitrary: s cs)
  case Nil
  then show ?case by (simp add: AList.update_triv)
next
  case (Cons d ds)
  show ?case
  proof (cases "remove1 d cs = []")
    case True
    have "map_of (active_connections (disconnect u d s)) u = None"
      by (simp add: disconnect_last [OF Cons.prems(1) True] AList.delete_conv')
    then have "disconnect_each u ds (disconnect u d s) = disconnect u d s"
      by (rule disconnect_each_absent)
    then show ?thesis
      using True by (simp add: disconnect_last [OF Cons.prems(1) True] fold_remove1_Nil)
  next
    case False
    let ?s1 = "disconnect u d s"
    have s1: "?s1 = s\<lparr>active_connections := AList.update u (remove1 d cs) (active_connections s)\<rparr>"
      by (rule disconnect_other [OF Cons.prems(1) False])
    have m1: "map_of (active_connections ?s1) u = Some (remove1 d cs)"
      by (simp add: s1 AList.update_conv')
    show ?thesis
      using Cons.IH [OF m1 False]
      by (simp add: s1 AList.delete_update_same)
  qed
qed



lemma send_personal_message_online:
  assumes "map_of (active_connections s) u = Some cs" and "cs \<noteq> []"
  shows "\<exists>evs. attempts evs = map (\<lambda>c. (c, p)) cs \<and> tasks evs = [] \<and> commits evs = [] \<and>
           send_personal_message net p u s =
             (if fold remove1 (failures evs) cs = []
              then s\<lparr>active_connections := AList.delete u (active_connections s),
                     trace := trace s @ evs @ [Create_task u ''offline'']\<rparr>
              else s\<lparr>active_connections :=
                       AList.update u (fold remove1 (failures evs) cs) (active_connections s),
                     trace := trace s @ evs\<rparr>)"
proof -
  obtain evs where e: "send_collect net p cs [] s = ([] @ failures evs, s\<lparr>trace := trace s @ evs\<rparr>)"
      "attempts evs = map (\<lambda>c. (c, p)) cs" "tasks evs = []" "commits evs = []"
    using send_collect_result [of net p cs "[]" s] by blast
  let ?s1 = "s\<lparr>trace := trace s @ evs\<rparr>"
  have m: "map_of (active_connections ?s1) u = Some cs" using assms(1) by simp
  have "send_personal_message net p u s = disconnect_each u (failures evs) ?s1"
    using assms(1) e(1) by (simp add: send_personal_message_def)
  then show ?thesis
    using disconnect_each_present [OF m assms(2), of "failures evs"] e(2,3,4)
    by (intro exI [of _ evs]) simp
qed

subsection \<open>Frame conditions and fresh keys\<close>

lemma fold_max_ge: "(a::int) \<le> fold max ids a"
proof (induction ids arbitrary: a)
  case Nil
  show ?case by simp
next
  case (Cons i ids)
  have "a \<le> max i a" by simp
  also have "\<dots> \<le> fold max ids (max i a)" by (rule Cons.IH)
  finally show ?case by simp
qed

lemma fold_max_mem: "(i::int) \<in> set ids \<Longrightarrow> i \<le> fold max ids a"
proof (induction ids arbitrary: a)
  case Nil
  then show ?case by simp
next
  case (Cons j ids)
  show ?case
  proof (cases "i = j")
    case True
    have "i \<le> max j a" using True by simp
    also have "\<dots> \<le> fold max ids (max j a)" by (rule fold_max_ge)
    finally show ?thesis by simp
  next
    case False
    then have "i \<in> set ids" using Cons.prems by simp
    then show ?thesis using Cons.IH by simp
  qed
qed

lemma next_id_fresh: "next_id ids \<notin> set ids"
proof
  assume "next_id ids \<in> set ids"
  then have "next_id ids \<le> fold max ids 0" by (rule fold_max_mem)
  then show False by (simp add: next_id_def)
qed

lemma get_or_create_user_frame:
  assumes "get_or_create_user un e p f b a s = (r, s1)"
  shows "active_connections s1 = active_connections s" "trace s1 = trace s"
    "messages s1 = messages s" "conversations s1 = conversations s"
  using assms
  by (auto simp add: get_or_create_user_def create_user_def Let_def
      split: sum.splits option.splits if_splits)

lemma get_or_create_conversation_frame:
  assumes "get_or_create_conversation a b t s = (r, s1)"
  shows "active_connections s1 = active_connections s" "trace s1 = trace s"
    "messages s1 = messages s" "users s1 = users s"
  using assms
  by (auto simp add: get_or_create_conversation_def Let_def
      split: sum.splits option.splits if_splits)

lemma create_message_frame:
  assumes "create_message sid md t1 t2 s = (r, s2)"
  shows "active_connections s2 = active_connections s" "trace s2 = trace s"
    "users s2 = users s"
proof -
  obtain r1 s1 where g: "get_or_create_conversation sid (receiver_id md) t1 s = (r1, s1)"
    by (cases "get_or_create_conversation sid (receiver_id md) t1 s")
  note f = get_or_create_conversation_frame [OF g]
  show "active_connections s2 = active_connections s" "trace s2 = trace s" "users s2 = users s"
    using assms g f
    by (auto simp add: create_message_def Let_def split: sum.splits if_splits)
qed

lemma create_message_Inr:
  assumes "create_message sid md t1 t2 s = (Inr m, s2)"
  shows "messages s2 = messages s @ [m]" "msg_status m = SENT"
    "msg_id m = next_id (map msg_id (messages s))"
proof -
  obtain r1 s1 where g: "get_or_create_conversation sid (receiver_id md) t1 s = (r1, s1)"
    by (cases "get_or_create_conversation sid (receiver_id md) t1 s")
  note f = get_or_create_conversation_frame [OF g]
  show "messages s2 = messages s @ [m]" "msg_status m = SENT"
    "msg_id m = next_id (map msg_id (messages s))"
    using assms g f
    by (auto simp add: create_message_def Let_def split: sum.splits if_splits)
qed

lemma disconnect_each_db [simp]:
  "users (disconnect_each u ds s) = users s"
  "conversations (disconnect_each u ds s) = conversations s"
  "messages (disconnect_each u ds s) = messages s"
  by (induction ds arbitrary: s) simp_all

lemma send_personal_message_db [simp]:
  "users (send_personal_message net p u s) = users s"
  "conversations (send_personal_message net p u s) = conversations s"
  "messages (send_personal_message net p u s) = messages s"
proof -
  have "users (send_personal_message net p u s) = users s \<and>
        conversations (send_personal_message net p u s) = conversations s \<and>
        messages (send_personal_message net p u s) = messages s"
  proof (cases "map_of (active_connections s) u")
    case None
    then show ?thesis by (simp add: send_personal_message_def)
  next
    case (Some cs)
    obtain ds s' where sc: "send_collect net p cs [] s = (ds, s')"
      by (cases "send_collect net p cs [] s")
    have "users s' = users s" "conversations s' = conversations s" "messages s' = messages s"
      using send_collect_frame(2-4) [of net p cs "[]" s] sc by simp_all
    then show ?thesis
      using Some sc by (simp add: send_personal_message_def)
  qed
  then show "users (send_personal_message net p u s) = users s"
    "conversations (send_personal_message net p u s) = conversations s"
    "messages (send_personal_message net p u s) = messages s"
    by simp_all
qed

lemma broadcast_connections_state:
  "\<exists>evs. broadcast_connections net p cs s = s\<lparr>trace := trace s @ evs\<rparr> \<and>
         attempts evs = map (\<lambda>c. (c, p)) cs \<and> tasks evs = [] \<and> commits evs = []"
proof (induction cs arbitrary: s)
  case Nil
  show ?case by (rule exI [of _ "[]"]) simp
next
  case (Cons c cs)
  let ?e = "Send_text c p (net (trace s) c p)"
  let ?s1 = "s\<lparr>trace := trace s @ [?e]\<rparr>"
  have step: "broadcast_connections net p (c # cs) s = broadcast_connections net p cs ?s1"
    by (simp add: send_text_def Let_def)
  obtain evs where e: "broadcast_connections net p cs ?s1 = ?s1\<lparr>trace := trace ?s1 @ evs\<rparr>"
      "attempts evs = map (\<lambda>c. (c, p)) cs" "tasks evs = []" "commits evs = []"
    using Cons.IH [of ?s1] by blast
  show ?case
    unfolding step e(1)
    by (rule exI [of _ "?e # evs"]) (simp add: e(2,3,4))
qed

lemma broadcast_items_state:
  "\<exists>evs. broadcast_items net p items s = s\<lparr>trace := trace s @ evs\<rparr> \<and>
         attempts evs = map (\<lambda>c. (c, p)) (concat (map snd items)) \<and> tasks evs = [] \<and>
         commits evs = []"
proof (induction items arbitrary: s)
  case Nil
  show ?case by (rule exI [of _ "[]"]) simp
next
  case (Cons item items)
  obtain u cs where item: "item = (u, cs)" by (cases item)
  obtain evs1 where e1: "broadcast_connections net p cs s = s\<lparr>trace := trace s @ evs1\<rparr>"
      "attempts evs1 = map (\<lambda>c. (c, p)) cs" "tasks evs1 = []" "commits evs1 = []"
    using broadcast_connections_state [of net p cs s] by blast
  let ?s1 = "s\<lparr>trace := trace s @ evs1\<rparr>"
  obtain evs2 where e2: "broadcast_items net p items ?s1 = ?s1\<lparr>trace := trace ?s1 @ evs2\<rparr>"
      "attempts evs2 = map (\<lambda>c. (c, p)) (concat (map snd items))" "tasks evs2 = []"
      "commits evs2 = []"
    using Cons.IH [of ?s1] by blast
  have "broadcast_items net p (item # items) s = s\<lparr>trace := trace s @ evs1 @ evs2\<rparr>"
    by (simp add: item e1(1) e2(1))
  then show ?case
    by (intro exI [of _ "evs1 @ evs2"]) (simp add: item e1(2,3,4) e2(2,3,4))
qed

lemma awaiting_update_online:
  assumes "map_of (active_connections s) u = Some cs" and "cs \<noteq> []"
  obtains pushes frames where
    "attempts pushes = map (\<lambda>c. (c, p)) cs" "tasks pushes = []" "commits pushes = []"
    "attempts frames =
       map (\<lambda>c. (c, User_status u ''offline''))
         (concat (map snd (AList.delete u (active_connections s))))"
    "tasks frames = []" "commits frames = []"
    "awaiting_update net p u s =
       (if fold remove1 (failures pushes) cs = []
        then s\<lparr>active_connections := AList.delete u (active_connections s),
               trace := trace s @ pushes @ Create_task u ''offline'' # frames\<rparr>
        else s\<lparr>active_connections :=
                 AList.update u (fold remove1 (failures pushes) cs) (active_connections s),
               trace := trace s @ pushes\<rparr>)"
proof -
  from send_personal_message_online [OF assms, of p net]
  obtain pushes where p1: "attempts pushes = map (\<lambda>c. (c, p)) cs"
    and p2: "tasks pushes = []" and p3: "commits pushes = []"
    and p4: "send_personal_message net p u s =
             (if fold remove1 (failures pushes) cs = []
              then s\<lparr>active_connections := AList.delete u (active_connections s),
                     trace := trace s @ pushes @ [Create_task u ''offline'']\<rparr>
              else s\<lparr>active_connections :=
                       AList.update u (fold remove1 (failures pushes) cs) (active_connections s),
                     trace := trace s @ pushes\<rparr>)"
    by (elim exE conjE)
  let ?gone = "s\<lparr>active_connections := AList.delete u (active_connections s),
                 trace := trace s @ pushes @ [Create_task u ''offline'']\<rparr>"
  from broadcast_items_state [of net "User_status u ''offline''" "active_connections ?gone" ?gone]
  obtain frames where f1: "broadcast_items net (User_status u ''offline'')
        (active_connections ?gone) ?gone = ?gone\<lparr>trace := trace ?gone @ frames\<rparr>"
    and f2: "attempts frames = map (\<lambda>c. (c, User_status u ''offline''))
        (concat (map snd (active_connections ?gone)))"
    and f3: "tasks frames = []" and f4: "commits frames = []"
    by (elim exE conjE)
  have f2': "attempts frames =
       map (\<lambda>c. (c, User_status u ''offline''))
         (concat (map snd (AList.delete u (active_connections s))))"
    using f2 by simp
  have "awaiting_update net p u s =
       (if fold remove1 (failures pushes) cs = []
        then s\<lparr>active_connections := AList.delete u (active_connections s),
               trace := trace s @ pushes @ Create_task u ''offline'' # frames\<rparr>
        else s\<lparr>active_connections :=
                 AList.update u (fold remove1 (failures pushes) cs) (active_connections s),
               trace := trace s @ pushes\<rparr>)"
  proof (cases "fold remove1 (failures pushes) cs = []")
    case True
    then have s3: "send_personal_message net p u s = ?gone" using p4 by simp
    show ?thesis
      using True f1 by (simp add: awaiting_update_def s3 p2 broadcast_user_status_def)
  next
    case False
    then have s3: "send_personal_message net p u s =
        s\<lparr>active_connections :=
             AList.update u (fold remove1 (failures pushes) cs) (active_connections s),
           trace := trace s @ pushes\<rparr>"
      using p4 by simp
    show ?thesis
      using False by (simp add: awaiting_update_def s3 p2)
  qed
  then show thesis
    using that [OF p1 p2 p3 f2' f3 f4] by blast
qed

lemma awaiting_update_db [simp]:
  "users (awaiting_update net p u s) = users s"
  "conversations (awaiting_update net p u s) = conversations s"
  "messages (awaiting_update net p u s) = messages s"
  by (simp_all add: awaiting_update_def Let_def)

lemma filter_map_replace:
  "msg_id m' = i \<Longrightarrow>
   filter (\<lambda>m. msg_id m = i) (map (\<lambda>x. if msg_id x = i then m' else x) ms) =
     map (\<lambda>x. m') (filter (\<lambda>m. msg_id m = i) ms)"
  by (induction ms) simp_all

lemma update_message_status_found:
  assumes "filter (\<lambda>m. msg_id m = i) (messages s) = [m]"
  shows "update_message_status i st s =
           (Inr (Some (m\<lparr>msg_status := st\<rparr>)),
            s\<lparr>messages := map (\<lambda>x. if msg_id x = i then m\<lparr>msg_status := st\<rparr> else x)
                              (messages s),
              trace := trace s @ [Commit_status i st]\<rparr>)"
    and "stored_status (snd (update_message_status i st s)) i = [st]"
proof -
  show u: "update_message_status i st s =
           (Inr (Some (m\<lparr>msg_status := st\<rparr>)),
            s\<lparr>messages := map (\<lambda>x. if msg_id x = i then m\<lparr>msg_status := st\<rparr> else x)
                              (messages s),
              trace := trace s @ [Commit_status i st]\<rparr>)"
    using assms by (simp add: update_message_status_def Let_def)
  have "m \<in> set (filter (\<lambda>m. msg_id m = i) (messages s))" using assms by simp
  then have "msg_id m = i" by simp
  then have "msg_id (m\<lparr>msg_status := st\<rparr>) = i" by simp
  then show "stored_status (snd (update_message_status i st s)) i = [st]"
    unfolding u stored_status_def using assms by (simp add: filter_map_replace)
qed

lemma filter_fresh: "i \<notin> set (map msg_id ms) \<Longrightarrow> filter (\<lambda>x. msg_id x = i) ms = []"
  by (induction ms) auto

lemma filter_fresh_append:
  assumes "msg_id m \<notin> set (map msg_id ms)"
  shows "filter (\<lambda>x. msg_id x = msg_id m) (ms @ [m]) = [m]"
  using filter_fresh [OF assms] by simp

lemma create_message_stored:
  assumes "create_message sid md t1 t2 s = (Inr m, s2)"
  shows "filter (\<lambda>x. msg_id x = msg_id m) (messages s2) = [m]"
proof -
  note c = create_message_Inr [OF assms]
  have "msg_id m \<notin> set (map msg_id (messages s))"
    unfolding c(3) by (rule next_id_fresh)
  then show ?thesis unfolding c(1) by (rule filter_fresh_append)
qed

lemma send_message_Inr:
  assumes "send_message net md cu t1 t2 s = (Inr response, s')"
  shows "\<exists>sender s1 message s2.
      get_or_create_user (auth_username cu) None None None None None s = (Inr sender, s1) \<and>
      create_message (usr_id sender) md t1 t2 s1 = (Inr message, s2) \<and>
      (if is_user_online s (receiver_id md)
       then (\<exists>updated.
               update_message_status (msg_id message) DELIVERED
                 (awaiting_update net (New_message (model_validate message))
                    (receiver_id md) s2) = (Inr updated, s')) \<and>
            response = (model_validate message)\<lparr>resp_status := DELIVERED\<rparr>
       else s' = s2 \<and> response = model_validate message)"
proof -
  obtain r1 s1 where g: "get_or_create_user (auth_username cu) None None None None None s = (r1, s1)"
    by (cases "get_or_create_user (auth_username cu) None None None None None s")
  then obtain sender where r1: "r1 = Inr sender"
    using assms by (cases r1) (simp_all add: send_message_def)
  obtain r2 s2 where c: "create_message (usr_id sender) md t1 t2 s1 = (r2, s2)"
    by (cases "create_message (usr_id sender) md t1 t2 s1")
  have "\<exists>message. r2 = Inr message"
    using assms g r1 c
    by (cases r2) (auto simp add: send_message_def split: sum.splits option.splits)
  then obtain message where r2: "r2 = Inr message" by blast
  have on: "is_user_online s2 (receiver_id md) = is_user_online s (receiver_id md)"
    using get_or_create_user_frame(1) [OF g] create_message_frame(1) [OF c]
    by (simp add: is_user_online_def)
  have "if is_user_online s (receiver_id md)
       then (\<exists>updated.
               update_message_status (msg_id message) DELIVERED
                 (awaiting_update net (New_message (model_validate message))
                    (receiver_id md) s2) = (Inr updated, s')) \<and>
            response = (model_validate message)\<lparr>resp_status := DELIVERED\<rparr>
       else s' = s2 \<and> response = model_validate message"
    using assms g r1 c r2 on
    by (auto simp add: send_message_def awaiting_update_def Let_def
        split: sum.splits option.splits prod.splits if_splits)
  then show ?thesis
    using g r1 c r2 by blast
qed

lemma send_message_routed:
  assumes g: "get_or_create_user (auth_username cu) None None None None None s = (Inr sender, s1)"
    and r: "get_user_by_id (receiver_id md) s1 = Inr (Some receiver)"
    and c: "create_message (usr_id sender) md t1 t2 s1 = (Inr message, s2)"
  shows "send_message net md cu t1 t2 s =
     (if is_user_online s (receiver_id md)
      then (Inr ((model_validate message)\<lparr>resp_status := DELIVERED\<rparr>),
            snd (update_message_status (msg_id message) DELIVERED
                   (awaiting_update net (New_message (model_validate message))
                      (receiver_id md) s2)))
      else (Inr (model_validate message), s2))"
proof -
  let ?s3 = "awaiting_update net (New_message (model_validate message)) (receiver_id md) s2"
  have on: "is_user_online s2 (receiver_id md) = is_user_online s (receiver_id md)"
    using get_or_create_user_frame(1) [OF g] create_message_frame(1) [OF c]
    by (simp add: is_user_online_def)
  have f3: "filter (\<lambda>x. msg_id x = msg_id message) (messages ?s3) = [message]"
    using create_message_stored [OF c] by simp
  have "fst (update_message_status (msg_id message) DELIVERED ?s3) =
          Inr (Some (message\<lparr>msg_status := DELIVERED\<rparr>))"
    using update_message_status_found(1) [OF f3, of DELIVERED] by simp
  then show ?thesis
    using g r c on
    by (auto simp add: send_message_def awaiting_update_def Let_def
        split: prod.splits sum.splits)
qed

lemma send_message_offline_frame:
  assumes "\<not> is_user_online s (receiver_id md)"
  shows "active_connections (snd (send_message net md cu t1 t2 s)) = active_connections s"
    and "trace (snd (send_message net md cu t1 t2 s)) = trace s"
proof -
  obtain r1 s1 where g: "get_or_create_user (auth_username cu) None None None None None s = (r1, s1)"
    by (cases "get_or_create_user (auth_username cu) None None None None None s")
  note f1 = get_or_create_user_frame(1,2) [OF g]
  have "active_connections (snd (send_message net md cu t1 t2 s)) = active_connections s \<and>
        trace (snd (send_message net md cu t1 t2 s)) = trace s"
  proof (cases r1)
    case (Inl e)
    then show ?thesis using g f1 by (simp add: send_message_def)
  next
    case (Inr sender)
    obtain r2 s2 where c: "create_message (usr_id sender) md t1 t2 s1 = (r2, s2)"
      by (cases "create_message (usr_id sender) md t1 t2 s1")
    note f2 = create_message_frame(1,2) [OF c]
    have off: "\<not> is_user_online s2 (receiver_id md)"
      using assms f1 f2 by (simp add: is_user_online_def)
    show ?thesis
      using g Inr c f1 f2 off
      by (auto simp add: send_message_def Let_def split: sum.splits option.splits)
  qed
  then show "active_connections (snd (send_message net md cu t1 t2 s)) = active_connections s"
    and "trace (snd (send_message net md cu t1 t2 s)) = trace s"
    by simp_all
qed

lemma send_message_online:
  assumes "send_message net md cu t1 t2 s = (Inr response, s')"
    and "connections_of s (receiver_id md) \<noteq> []"
  obtains pushed pushes cleanup where
    "resp_status pushed = SENT"
    "response = pushed\<lparr>resp_status := DELIVERED\<rparr>"
    "attempts pushes = map (\<lambda>c. (c, New_message pushed)) (connections_of s (receiver_id md))"
    "tasks pushes = []"
    "commits pushes = []"
    "trace s' = trace s @ pushes @ cleanup @ [Commit_status (resp_id response) DELIVERED]"
    "connections_of s' (receiver_id md) =
       fold remove1 (failures pushes) (connections_of s (receiver_id md))"
    "connections_of s' (receiver_id md) = [] \<longleftrightarrow>
       map_of (active_connections s') (receiver_id md) = None"
    "connections_of s' (receiver_id md) \<noteq> [] \<longrightarrow> cleanup = []"
    "connections_of s' (receiver_id md) = [] \<longrightarrow>
       (\<exists>frames. cleanup = Create_task (receiver_id md) ''offline'' # frames \<and>
                attempts frames =
                  map (\<lambda>c. (c, User_status (receiver_id md) ''offline''))
                    (all_connections s') \<and>
                tasks frames = [] \<and> commits frames = [])"
    "stored_status s (resp_id response) = []"
    "stored_status s' (resp_id response) = [DELIVERED]"
proof -
  let ?rcv = "receiver_id md"
  let ?cs = "connections_of s ?rcv"
  have on: "is_user_online s ?rcv" using assms(2) by (simp add: is_user_online_iff)
  from send_message_Inr [OF assms(1)]
  obtain sender s1 message s2 where
    g: "get_or_create_user (auth_username cu) None None None None None s = (Inr sender, s1)" and
    c: "create_message (usr_id sender) md t1 t2 s1 = (Inr message, s2)" and
    ite: "if is_user_online s ?rcv
       then (\<exists>updated.
               update_message_status (msg_id message) DELIVERED
                 (awaiting_update net (New_message (model_validate message))
                    ?rcv s2) = (Inr updated, s')) \<and>
            response = (model_validate message)\<lparr>resp_status := DELIVERED\<rparr>
       else s' = s2 \<and> response = model_validate message"
    by (elim exE conjE)
  let ?pushed = "model_validate message"
  let ?s3 = "awaiting_update net (New_message ?pushed) ?rcv s2"
  from ite on obtain updated where
    u: "update_message_status (msg_id message) DELIVERED ?s3 = (Inr updated, s')"
    by auto
  from ite on have r: "response = ?pushed\<lparr>resp_status := DELIVERED\<rparr>" by simp
  have ac2: "active_connections s2 = active_connections s" and tr2: "trace s2 = trace s"
    using get_or_create_user_frame(1,2) [OF g] create_message_frame(1,2) [OF c] by simp_all
  have ms1: "messages s1 = messages s" by (rule get_or_create_user_frame(3) [OF g])
  have m2: "map_of (active_connections s2) ?rcv = Some ?cs"
    using assms(2) unfolding ac2 by (auto simp add: connections_of_def split: option.splits)
  obtain pushes frames where
    p1: "attempts pushes = map (\<lambda>c. (c, New_message ?pushed)) ?cs" and
    p2: "tasks pushes = []" and p3: "commits pushes = []" and
    f1: "attempts frames =
       map (\<lambda>c. (c, User_status ?rcv ''offline''))
         (concat (map snd (AList.delete ?rcv (active_connections s2))))" and
    f2: "tasks frames = []" and f3: "commits frames = []" and
    e: "?s3 =
       (if fold remove1 (failures pushes) ?cs = []
        then s2\<lparr>active_connections := AList.delete ?rcv (active_connections s2),
                trace := trace s2 @ pushes @ Create_task ?rcv ''offline'' # frames\<rparr>
        else s2\<lparr>active_connections :=
                  AList.update ?rcv (fold remove1 (failures pushes) ?cs) (active_connections s2),
                trace := trace s2 @ pushes\<rparr>)"
    by (rule awaiting_update_online [OF m2 assms(2), of "New_message ?pushed" net])
  let ?rest = "fold remove1 (failures pushes) ?cs"
  let ?cleanup = "if ?rest = [] then Create_task ?rcv ''offline'' # frames else []"
  have id: "resp_id response = msg_id message" by (simp add: r model_validate_def)
  have st: "resp_status ?pushed = SENT"
    using create_message_Inr(2) [OF c] by (simp add: model_validate_def)
  have fm: "filter (\<lambda>x. msg_id x = msg_id message) (messages ?s3) = [message]"
    using create_message_stored [OF c] by simp
  note upd = update_message_status_found [OF fm, of DELIVERED]
  have s': "s' = ?s3\<lparr>messages := map (\<lambda>x. if msg_id x = msg_id message
                        then message\<lparr>msg_status := DELIVERED\<rparr> else x) (messages ?s3),
                    trace := trace ?s3 @ [Commit_status (msg_id message) DELIVERED]\<rparr>"
    using u upd(1) by simp
  have d: "stored_status s' (resp_id response) = [DELIVERED]"
    unfolding id using upd(2) u by simp
  have "msg_id message \<notin> set (map msg_id (messages s))"
    unfolding create_message_Inr(3) [OF c] ms1 by (rule next_id_fresh)
  then have "filter (\<lambda>x. msg_id x = msg_id message) (messages s) = []"
    by (rule filter_fresh)
  then have b: "stored_status s (resp_id response) = []"
    unfolding id by (simp add: stored_status_def)
  have t3: "trace ?s3 = trace s @ pushes @ ?cleanup"
    unfolding e by (simp add: tr2)
  have ac3: "active_connections ?s3 =
       (if ?rest = [] then AList.delete ?rcv (active_connections s)
        else AList.update ?rcv ?rest (active_connections s))"
    unfolding e by (simp add: ac2)
  have t': "trace s' = trace s @ pushes @ ?cleanup @ [Commit_status (resp_id response) DELIVERED]"
    unfolding id by (simp add: s' t3)
  have ac': "active_connections s' =
       (if ?rest = [] then AList.delete ?rcv (active_connections s)
        else AList.update ?rcv ?rest (active_connections s))"
    by (simp add: s' ac3)
  have co: "connections_of s' ?rcv = ?rest"
    by (simp add: connections_of_def [of s'] ac' AList.delete_conv' AList.update_conv')
  have key: "connections_of s' ?rcv = [] \<longleftrightarrow> map_of (active_connections s') ?rcv = None"
    unfolding co by (simp add: ac' AList.delete_conv' AList.update_conv')
  have c1: "connections_of s' ?rcv \<noteq> [] \<longrightarrow> ?cleanup = []"
    unfolding co by simp
  have c2: "connections_of s' ?rcv = [] \<longrightarrow>
              (\<exists>frames. ?cleanup = Create_task ?rcv ''offline'' # frames \<and>
                attempts frames =
                  map (\<lambda>c. (c, User_status ?rcv ''offline'')) (all_connections s') \<and>
                tasks frames = [] \<and> commits frames = [])"
  proof
    assume "connections_of s' ?rcv = []"
    then have rest: "?rest = []" unfolding co .
    then have "all_connections s' = concat (map snd (AList.delete ?rcv (active_connections s2)))"
      by (simp add: all_connections_def ac' ac2)
    then show "\<exists>frames. ?cleanup = Create_task ?rcv ''offline'' # frames \<and>
                attempts frames =
                  map (\<lambda>c. (c, User_status ?rcv ''offline'')) (all_connections s') \<and>
                tasks frames = [] \<and> commits frames = []"
      using rest f1 f2 f3 by (intro exI [of _ frames]) simp
  qed
  show thesis
    by (rule that [OF st r p1 p2 p3 t' co key c1 c2 b d])
qed







lemmas route_defs =
  send_message_def get_or_create_user_def get_user_by_username_def get_user_by_id_def
  create_message_def get_or_create_conversation_def update_message_status_def
  send_personal_message_def send_text_def disconnect_def is_user_online_def model_validate_def
  broadcast_user_status_def truthy_def next_id_def Let_def

lemmas example_defs =
  chat_system_def alice_def bob_def carol_def alice_auth_def hello_bob_def hello_carol_def
  first_conversation_def first_message_def first_response_def after_hello_bob_def
  after_hello_carol_def chat_system_both_def

subsection \<open>A recipient who is not connected\<close>

text \<open>
  Claim C7. When the recipient of a message has no registered handle, handling the
  request leaves the registry and the trace as they were (no send is attempted, nothing
  is scheduled), whether the request succeeds or not; when it succeeds, the response
  carries the status \<^verbatim>\<open>sent\<close> and the stored status of the message is \<^verbatim>\<open>sent\<close>; and
  it does succeed, with the created message as the response, once the sender and the
  receiver have been found and the message has been created.
\<close>

theorem send_message_offline_queued:
  assumes "connections_of s (receiver_id md) = []"
  shows "active_connections (snd (send_message net md cu t1 t2 s)) = active_connections s \<and>
         trace (snd (send_message net md cu t1 t2 s)) = trace s \<and>
         (\<forall>response. fst (send_message net md cu t1 t2 s) = Inr response \<longrightarrow>
            resp_status response = SENT \<and>
            stored_status (snd (send_message net md cu t1 t2 s)) (resp_id response) = [SENT]) \<and>
         (\<forall>sender s1 receiver message s2.
            get_or_create_user (auth_username cu) None None None None None s = (Inr sender, s1) \<longrightarrow>
            get_user_by_id (receiver_id md) s1 = Inr (Some receiver) \<longrightarrow>
            create_message (usr_id sender) md t1 t2 s1 = (Inr message, s2) \<longrightarrow>
            send_message net md cu t1 t2 s = (Inr (model_validate message), s2))"
proof -
  have off: "\<not> is_user_online s (receiver_id md)"
    using assms by (simp add: is_user_online_iff)
  have routed: "send_message net md cu t1 t2 s = (Inr (model_validate message), s2)"
    if "get_or_create_user (auth_username cu) None None None None None s = (Inr sender, s1)"
      and "get_user_by_id (receiver_id md) s1 = Inr (Some receiver)"
      and "create_message (usr_id sender) md t1 t2 s1 = (Inr message, s2)"
    for sender s1 receiver message s2
    using send_message_routed [OF that, of net] off by simp
  have st: "resp_status response = SENT \<and> stored_status s' (resp_id response) = [SENT]"
    if sm: "send_message net md cu t1 t2 s = (Inr response, s')" for response s'
  proof -
    from send_message_Inr [OF sm]
    obtain sender s1 message s2 where
      g: "get_or_create_user (auth_username cu) None None None None None s = (Inr sender, s1)" and
      c2: "create_message (usr_id sender) md t1 t2 s1 = (Inr message, s2)" and
      ite: "if is_user_online s (receiver_id md)
       then (\<exists>updated.
               update_message_status (msg_id message) DELIVERED
                 (awaiting_update net (New_message (model_validate message))
                    (receiver_id md) s2) = (Inr updated, s')) \<and>
            response = (model_validate message)\<lparr>resp_status := DELIVERED\<rparr>
       else s' = s2 \<and> response = model_validate message"
      by (elim exE conjE)
    have e: "s' = s2 \<and> response = model_validate message"
      using ite off by simp
    have c: "create_message (usr_id sender) md t1 t2 s1 = (Inr message, s')"
      and r: "response = model_validate message"
      using c2 e by simp_all
    have "filter (\<lambda>x. msg_id x = msg_id message) (messages s') = [message]"
      by (rule create_message_stored [OF c])
    then show ?thesis
      using create_message_Inr(2) [OF c] by (simp add: r model_validate_def stored_status_def)
  qed
  have "resp_status response = SENT \<and>
        stored_status (snd (send_message net md cu t1 t2 s)) (resp_id response) = [SENT]"
    if "fst (send_message net md cu t1 t2 s) = Inr response" for response
    using st [of response "snd (send_message net md cu t1 t2 s)"] that
    by (metis prod.collapse)
  then show ?thesis
    using send_message_offline_frame [OF off] routed by blast
qed

theorem send_message_offline_queued_witness:
  "connections_of chat_system (receiver_id hello_carol) = [] \<and>
   send_message accept_all hello_carol alice_auth 100 101 chat_system =
     (Inr (first_response SENT), after_hello_carol) \<and>
   active_connections after_hello_carol = active_connections chat_system \<and>
   trace after_hello_carol = trace chat_system \<and>
   resp_status (first_response SENT) = SENT \<and>
   stored_status after_hello_carol (resp_id (first_response SENT)) = [SENT]"
proof -
  have h: "connections_of chat_system (receiver_id hello_carol) = []"
    by (simp add: connections_of_def example_defs)
  have e: "send_message accept_all hello_carol alice_auth 100 101 chat_system =
     (Inr (first_response SENT), after_hello_carol)"
    by (simp add: route_defs example_defs accept_all_def)
  show ?thesis
    using h e send_message_offline_queued [OF h, of accept_all alice_auth 100 101]
    by (simp add: example_defs stored_status_def)
qed

subsection \<open>A recipient who is connected\<close>




text \<open>
  Claim C9. When the recipient has at least one registered handle and the request
  succeeds, what the request adds to the trace starts with one send, on each of the
  recipient's handles, of the \<^verbatim>\<open>new_message\<close> frame whose message is the response with
  the status \<^verbatim>\<open>sent\<close>, and ends with the commit of the status \<^verbatim>\<open>delivered\<close> for that
  message. No status is committed before that; the frames sent between the two are
  \<^verbatim>\<open>offline\<close> status frames for the recipient. Before the request no message with that
  key is stored, and after it the stored status is \<^verbatim>\<open>delivered\<close>.
\<close>

theorem send_message_pushes_sent_then_delivered:
  assumes "send_message net md cu t1 t2 s = (Inr response, s')"
    and "connections_of s (receiver_id md) \<noteq> []"
  shows "\<exists>pushed pushes cleanup.
           resp_status pushed = SENT \<and>
           response = pushed\<lparr>resp_status := DELIVERED\<rparr> \<and>
           trace s' = trace s @ pushes @ cleanup @
                        [Commit_status (resp_id response) DELIVERED] \<and>
           attempts pushes =
             map (\<lambda>c. (c, New_message pushed)) (connections_of s (receiver_id md)) \<and>
           pushes \<noteq> [] \<and>
           commits pushes = [] \<and>
           commits cleanup = [] \<and>
           list_all (\<lambda>a. snd a = User_status (receiver_id md) ''offline'') (attempts cleanup) \<and>
           stored_status s (resp_id response) = [] \<and>
           stored_status s' (resp_id response) = [DELIVERED]"
proof -
  from assms obtain pushed pushes cleanup where
    p: "resp_status pushed = SENT" and
    r: "response = pushed\<lparr>resp_status := DELIVERED\<rparr>" and
    a: "attempts pushes = map (\<lambda>c. (c, New_message pushed)) (connections_of s (receiver_id md))" and
    k: "tasks pushes = []" and
    m: "commits pushes = []" and
    t': "trace s' = trace s @ pushes @ cleanup @ [Commit_status (resp_id response) DELIVERED]" and
    co: "connections_of s' (receiver_id md) =
       fold remove1 (failures pushes) (connections_of s (receiver_id md))" and
    key: "connections_of s' (receiver_id md) = [] \<longleftrightarrow>
       map_of (active_connections s') (receiver_id md) = None" and
    c1: "connections_of s' (receiver_id md) \<noteq> [] \<longrightarrow> cleanup = []" and
    c2: "connections_of s' (receiver_id md) = [] \<longrightarrow>
       (\<exists>frames. cleanup = Create_task (receiver_id md) ''offline'' # frames \<and>
                attempts frames =
                  map (\<lambda>c. (c, User_status (receiver_id md) ''offline''))
                    (all_connections s') \<and>
                tasks frames = [] \<and> commits frames = [])" and
    b: "stored_status s (resp_id response) = []" and
    d: "stored_status s' (resp_id response) = [DELIVERED]"
    by (rule send_message_online)
  have ne: "pushes \<noteq> []"
    using a assms(2) by auto
  have cl: "commits cleanup = [] \<and>
            list_all (\<lambda>a. snd a = User_status (receiver_id md) ''offline'') (attempts cleanup)"
  proof (cases "connections_of s' (receiver_id md) = []")
    case True
    with c2 obtain frames where
      "cleanup = Create_task (receiver_id md) ''offline'' # frames"
      "attempts frames =
         map (\<lambda>c. (c, User_status (receiver_id md) ''offline'')) (all_connections s')"
      "commits frames = []"
      by blast
    then show ?thesis by (simp add: list_all_iff)
  next
    case False
    then show ?thesis using c1 by simp
  qed
  show ?thesis
    using p r t' a ne m cl b d
    by (intro exI [of _ pushed] exI [of _ pushes] exI [of _ cleanup]) simp
qed

theorem send_message_pushes_sent_then_delivered_witness:
  "send_message accept_all hello_bob alice_auth 100 101 chat_system =
     (Inr (first_response DELIVERED),
      after_hello_bob [(9, [90, 91])]
        [Send_text 90 (New_message (first_response SENT)) True,
         Send_text 91 (New_message (first_response SENT)) True,
         Commit_status 1 DELIVERED]) \<and>
   connections_of chat_system (receiver_id hello_bob) \<noteq> [] \<and>
   stored_status chat_system (resp_id (first_response DELIVERED)) = [] \<and>
   stored_status
     (after_hello_bob [(9, [90, 91])]
        [Send_text 90 (New_message (first_response SENT)) True,
         Send_text 91 (New_message (first_response SENT)) True,
         Commit_status 1 DELIVERED])
     (resp_id (first_response DELIVERED)) = [DELIVERED]"
proof -
  have e: "send_message accept_all hello_bob alice_auth 100 101 chat_system =
     (Inr (first_response DELIVERED),
      after_hello_bob [(9, [90, 91])]
        [Send_text 90 (New_message (first_response SENT)) True,
         Send_text 91 (New_message (first_response SENT)) True,
         Commit_status 1 DELIVERED])"
    by (simp add: route_defs example_defs accept_all_def)
  have h: "connections_of chat_system (receiver_id hello_bob) \<noteq> []"
    by (simp add: connections_of_def example_defs)
  show ?thesis
    using e h send_message_pushes_sent_then_delivered [OF e h]
    by (simp add: stored_status_def example_defs)
qed

subsection \<open>Conversations\<close>



end
